theory Spec2Isabelle
  imports Main "HOL-Library.Word"
begin

section \<open>Values, buffers and errors\<close>

text \<open>
  A Node \<open>Buffer\<close> is a list of bytes. The values a JavaScript caller may pass where
  \<open>deriveSeed\<close> expects a name are kept as a small datatype, so that the source's test
  \<^verbatim>\<open>!name || typeof name !== 'string'\<close> is a computation of the model (\<open>JSObject\<close>
  stands for any other object: an array, a plain object, a \<open>String\<close> object). Strings
  are Isabelle strings (characters are 8-bit code units).
\<close>

type_synonym byte = "8 word"
type_synonym buffer = "byte list"

datatype jsval =
    JSUndefined
  | JSNull
  | JSBoolean bool
  | JSNumber int
  | JSString string
  | JSBuffer buffer
  | JSObject

fun truthy :: "jsval \<Rightarrow> bool" where
  "truthy JSUndefined = False"
| "truthy JSNull = False"
| "truthy (JSBoolean b) = b"
| "truthy (JSNumber n) = (n \<noteq> 0)"
| "truthy (JSString s) = (s \<noteq> [])"
| "truthy (JSBuffer b) = True"
| "truthy JSObject = True"

fun typeof :: "jsval \<Rightarrow> string" where
  "typeof JSUndefined = ''undefined''"
| "typeof JSNull = ''object''"
| "typeof (JSBoolean b) = ''boolean''"
| "typeof (JSNumber n) = ''number''"
| "typeof (JSString s) = ''string''"
| "typeof (JSBuffer b) = ''object''"
| "typeof JSObject = ''object''"

fun string_of :: "jsval \<Rightarrow> string" where
  "string_of (JSString s) = s"
| "string_of v = []"

text \<open>
  \<open>Error msg\<close> is a JavaScript \<^verbatim>\<open>new Error(msg)\<close> thrown by argument validation;
  \<open>StorageError code\<close> is the error object a storage callback receives, with its
  \<open>code\<close> field; \<open>SodiumError\<close> is what the hash library throws when it refuses the
  length of a buffer.
\<close>

datatype error = Error string | StorageError string | SodiumError

section \<open>The collaborators: sodium, blake2b, random-access storage\<close>

text \<open>
  The hash and the signature scheme are libraries outside the repository; they are
  parameters of the model. \<open>crypto_generichash s n key msg\<close> is the \<open>n\<close>-byte keyed
  digest of \<open>msg\<close>; \<open>crypto_sign_seed_keypair s seed\<close> is the pair (public key, secret
  key) the library writes into its two output buffers.
\<close>

record sodium =
  crypto_generichash :: "nat \<Rightarrow> buffer \<Rightarrow> buffer \<Rightarrow> buffer"
  crypto_sign_seed_keypair :: "buffer \<Rightarrow> buffer \<times> buffer"

text \<open>
  Every call to a collaborator is logged, in order, in the world the functions thread
  through. The world also holds the durable storage slots (absent slot: \<open>None\<close>), the
  I/O failures the storage driver will report, and the random tape that
  \<open>randombytes_buf\<close> consumes.
\<close>

datatype io_op = OpStat | OpWrite | OpRead

datatype call =
    Blake2bBatch "buffer list" buffer
  | SignSeedKeypair buffer
  | RandomBytesBuf nat
  | Stat string
  | Write string nat buffer
  | Read string nat nat

record world =
  disk :: "string \<Rightarrow> buffer option"
  faults :: "io_op \<Rightarrow> string option"
  entropy :: "nat \<Rightarrow> byte"
  drawn :: nat
  calls :: "call list"

definition log_call :: "call \<Rightarrow> world \<Rightarrow> world" where
  "log_call c w = w\<lparr>calls := calls w @ [c]\<rparr>"

text \<open>
  The library's bounds on the digest and on the key: both are 16 to 64 bytes long.
\<close>

definition crypto_generichash_BYTES_MIN :: nat where
  "crypto_generichash_BYTES_MIN = 16"

definition crypto_generichash_BYTES_MAX :: nat where
  "crypto_generichash_BYTES_MAX = 64"

definition crypto_generichash_KEYBYTES_MIN :: nat where
  "crypto_generichash_KEYBYTES_MIN = 16"

definition crypto_generichash_KEYBYTES_MAX :: nat where
  "crypto_generichash_KEYBYTES_MAX = 64"

text \<open>
  \<open>blake2b.batch(out, bufs, key)\<close> throws unless the output buffer and the key have a
  length within the library's bounds. Otherwise it feeds the buffers to one hash
  instance in order and writes the digest over the whole of \<open>out\<close>: the digest is that
  of the concatenation.
\<close>

definition blake2b_batch ::
  "sodium \<Rightarrow> buffer \<Rightarrow> buffer list \<Rightarrow> buffer \<Rightarrow> world \<Rightarrow> (error + buffer) \<times> world" where
  "blake2b_batch s out bufs key w =
     (if length out < crypto_generichash_BYTES_MIN \<or> crypto_generichash_BYTES_MAX < length out \<or>
         length key < crypto_generichash_KEYBYTES_MIN \<or> crypto_generichash_KEYBYTES_MAX < length key
      then (Inl SodiumError, log_call (Blake2bBatch bufs key) w)
      else (Inr (crypto_generichash s (length out) key (concat bufs)),
            log_call (Blake2bBatch bufs key) w))"

definition sign_seed_keypair :: "sodium \<Rightarrow> buffer \<Rightarrow> world \<Rightarrow> (buffer \<times> buffer) \<times> world" where
  "sign_seed_keypair s seed w = (crypto_sign_seed_keypair s seed, log_call (SignSeedKeypair seed) w)"

section \<open>Encodings\<close>

definition digit_char :: "nat \<Rightarrow> char" where
  "digit_char d = char_of (48 + d)"

fun decimal :: "nat \<Rightarrow> string" where
  "decimal n = (if n < 10 then [digit_char n] else decimal (n div 10) @ [digit_char (n mod 10)])"

declare decimal.simps [simp del]

text \<open>\<open>Buffer.from(str, 'ascii')\<close>: one byte per code unit.\<close>

definition ascii :: "string \<Rightarrow> buffer" where
  "ascii str = map (\<lambda>c. word_of_nat (of_char c)) str"

text \<open>
  \<open>Buffer.from(str)\<close> and \<open>b4a.from(str)\<close> encode in UTF-8: a code unit below 128 is one
  byte, one from 128 to 255 is two.
\<close>

definition utf8_char :: "char \<Rightarrow> buffer" where
  "utf8_char c =
     (let n = (of_char c :: nat) in
      if n < 128 then [word_of_nat n]
      else [word_of_nat (192 + n div 64), word_of_nat (128 + n mod 64)])"

definition utf8 :: "string \<Rightarrow> buffer" where
  "utf8 str = concat (map utf8_char str)"

section \<open>lib/keys.js\<close>

definition DEFAULT_TOKEN :: buffer where
  "DEFAULT_TOKEN = []"

definition NAMESPACE :: buffer where
  "NAMESPACE = utf8 ''@hyperspace/key-manager''"

record KeyManager =
  storage :: string
  profile :: buffer

text \<open>
  Both key pair objects of the source are a public key and a secret key (the field is
  \<open>_secretKey\<close> in \<open>createHypercoreKeyPair\<close>, \<open>secretKey\<close> in
  \<open>createNetworkIdentity\<close>); the \<open>sign\<close> closure of the first is a function of the pair.
\<close>

record keyPair =
  publicKey :: buffer
  secretKey :: buffer

definition token_too_short :: "buffer option \<Rightarrow> bool" where
  "token_too_short token = (case token of None \<Rightarrow> False | Some t \<Rightarrow> length t < 32)"

definition name_invalid :: "jsval \<Rightarrow> bool" where
  "name_invalid name = (\<not> truthy name \<or> typeof name \<noteq> ''string'')"

definition deriveSeed ::
  "sodium \<Rightarrow> buffer \<Rightarrow> buffer option \<Rightarrow> jsval \<Rightarrow> buffer option \<Rightarrow> world \<Rightarrow> (error + buffer) \<times> world" where
  "deriveSeed s prof token name output w =
     (if token_too_short token then (Inl (Error ''Token must be a Buffer with length >= 32''), w)
      else if name_invalid name then (Inl (Error ''name must be a String''), w)
      else
        let out = (case output of None \<Rightarrow> replicate 32 0 | Some b \<Rightarrow> b)
        in blake2b_batch s out
             [NAMESPACE,
              (case token of None \<Rightarrow> DEFAULT_TOKEN | Some t \<Rightarrow> t),
              ascii (decimal (length (string_of name)) @ [CHR 0x0A] @ string_of name)]
             prof w)"

definition createSecret ::
  "sodium \<Rightarrow> KeyManager \<Rightarrow> jsval \<Rightarrow> buffer option \<Rightarrow> world \<Rightarrow> (error + buffer) \<times> world" where
  "createSecret s km name token w = deriveSeed s (profile km) token name None w"

definition createHypercoreKeyPair ::
  "sodium \<Rightarrow> KeyManager \<Rightarrow> jsval \<Rightarrow> buffer option \<Rightarrow> world \<Rightarrow> (error + keyPair) \<times> world" where
  "createHypercoreKeyPair s km name token w =
     (case createSecret s km name token w of
        (Inl e, w') \<Rightarrow> (Inl e, w')
      | (Inr seed, w') \<Rightarrow>
          let ((pk, sk), w'') = sign_seed_keypair s seed w'
          in (Inr \<lparr>publicKey = pk, secretKey = sk\<rparr>, w''))"

definition createNetworkIdentity ::
  "sodium \<Rightarrow> KeyManager \<Rightarrow> jsval \<Rightarrow> buffer option \<Rightarrow> world \<Rightarrow> (error + keyPair) \<times> world" where
  "createNetworkIdentity s km name token w =
     (case createSecret s km name token w of
        (Inl e, w') \<Rightarrow> (Inl e, w')
      | (Inr seed, w') \<Rightarrow>
          let ((pk, sk), w'') = sign_seed_keypair s seed w'
          in (Inr \<lparr>publicKey = pk, secretKey = sk\<rparr>, w''))"

text \<open>
  \<open>randomBytes n\<close> allocates \<open>n\<close> bytes and has \<open>randombytes_buf\<close> fill them: the next
  \<open>n\<close> bytes of the random tape.
\<close>

definition randomBytes :: "nat \<Rightarrow> world \<Rightarrow> buffer \<times> world" where
  "randomBytes n w =
     (map (entropy w) [drawn w ..< drawn w + n],
      log_call (RandomBytesBuf n) (w\<lparr>drawn := drawn w + n\<rparr>))"

definition createToken :: "world \<Rightarrow> buffer \<times> world" where
  "createToken w = randomBytes 32 w"

subsection \<open>The storage slot\<close>

text \<open>
  The random-access storage behind a slot: \<open>stat\<close> reports the size, or \<open>ENOENT\<close> for a
  slot that does not exist; \<open>write\<close> creates the slot if needed and replaces the bytes
  from the offset on (padding with zeros up to the offset); \<open>read\<close> fails unless the whole
  range is stored. Each operation fails with the code the world's \<open>faults\<close> gives it.
\<close>

definition error_code :: "error \<Rightarrow> string option" where
  "error_code e =
     (case e of Error msg \<Rightarrow> None | StorageError code \<Rightarrow> Some code | SodiumError \<Rightarrow> None)"

definition storage_stat :: "string \<Rightarrow> world \<Rightarrow> (error + nat) \<times> world" where
  "storage_stat slot w =
     (let w' = log_call (Stat slot) w in
      case faults w OpStat of
        Some code \<Rightarrow> (Inl (StorageError code), w')
      | None \<Rightarrow>
          (case disk w slot of
             None \<Rightarrow> (Inl (StorageError ''ENOENT''), w')
           | Some b \<Rightarrow> (Inr (length b), w')))"

definition write_at :: "nat \<Rightarrow> buffer \<Rightarrow> buffer \<Rightarrow> buffer" where
  "write_at off data old =
     take off (old @ replicate (off - length old) 0) @ data @ drop (off + length data) old"

definition storage_write :: "string \<Rightarrow> nat \<Rightarrow> buffer \<Rightarrow> world \<Rightarrow> (error + unit) \<times> world" where
  "storage_write slot off data w =
     (let w' = log_call (Write slot off data) w in
      case faults w OpWrite of
        Some code \<Rightarrow> (Inl (StorageError code), w')
      | None \<Rightarrow>
          (Inr (),
           w'\<lparr>disk := (disk w')
                 (slot := Some (write_at off data (case disk w' slot of None \<Rightarrow> [] | Some b \<Rightarrow> b)))\<rparr>))"

definition storage_read :: "string \<Rightarrow> nat \<Rightarrow> nat \<Rightarrow> world \<Rightarrow> (error + buffer) \<times> world" where
  "storage_read slot off n w =
     (let w' = log_call (Read slot off n) w in
      case faults w OpRead of
        Some code \<Rightarrow> (Inl (StorageError code), w')
      | None \<Rightarrow>
          (case disk w slot of
             None \<Rightarrow> (Inl (StorageError ''ENOENT''), w')
           | Some b \<Rightarrow>
               if off + n \<le> length b then (Inr (take n (drop off b)), w')
               else (Inl (StorageError ''Could not satisfy length''), w')))"

subsection \<open>KeyManager.fromStorage\<close>

text \<open>
  \<open>opts.name\<close> is an optional string, \<open>opts.overwrite\<close> is read for its truthiness only.
  The storage factory maps a slot name to its slot; the manager keeps the slot's name.
\<close>

record opts =
  opt_name :: "string option"
  opt_overwrite :: bool

definition slot_name :: "opts \<Rightarrow> string" where
  "slot_name opts =
     (case opt_name opts of None \<Rightarrow> ''default'' | Some n \<Rightarrow> if n = [] then ''default'' else n)"

text \<open>The branch that draws a new key and writes it at offset 0 (lines 69 to 73).\<close>

definition write_new_key :: "string \<Rightarrow> world \<Rightarrow> (error + KeyManager) \<times> world" where
  "write_new_key profileStorage w =
     (let (key, w1) = randomBytes 32 w in
      case storage_write profileStorage 0 key w1 of
        (Inl err, w2) \<Rightarrow> (Inl err, w2)
      | (Inr u, w2) \<Rightarrow> (Inr \<lparr>storage = profileStorage, profile = key\<rparr>, w2))"

definition fromStorage :: "opts \<Rightarrow> world \<Rightarrow> (error + KeyManager) \<times> world" where
  "fromStorage opts w =
     (let profileStorage = slot_name opts;
          (st, w1) = storage_stat profileStorage w
      in case st of
           Inl err \<Rightarrow>
             if error_code err \<noteq> Some ''ENOENT'' then (Inl err, w1)
             else write_new_key profileStorage w1
         | Inr sz \<Rightarrow>
             if sz < 32 \<or> opt_overwrite opts then write_new_key profileStorage w1
             else
               (case storage_read profileStorage 0 32 w1 of
                  (Inl err, w2) \<Rightarrow> (Inl err, w2)
                | (Inr key, w2) \<Rightarrow> (Inr \<lparr>storage = profileStorage, profile = key\<rparr>, w2)))"

section \<open>The standalone derivation of the test suite\<close>

text \<open>
  The test "Key derivation should have no dependency on corestore's constants" defines
  the derivation that the store's \<open>createKeyPair\<close> is compared with:
  \<open>crypto_generichash_batch(seed, [prefix, namespace, name], pk)\<close> on a 32-byte seed,
  then \<open>crypto_sign_seed_keypair\<close>. The definition is the key pair computed when the
  library accepts \<open>pk\<close> as a key (16 to 64 bytes, as the 32-byte primary keys of the
  tests are); for another length the source throws.
\<close>

definition createKeyPair :: "sodium \<Rightarrow> buffer \<Rightarrow> buffer \<Rightarrow> string \<Rightarrow> buffer \<Rightarrow> keyPair" where
  "createKeyPair s prefix namespace name pk =
     (let seed = crypto_generichash s (length (replicate 32 (0::byte))) pk
                   (concat [prefix, namespace, utf8 name]);
          (pub, sec) = crypto_sign_seed_keypair s seed
      in \<lparr>publicKey = pub, secretKey = sec\<rparr>)"

section \<open>Namespaces and the core registry\<close>

text \<open>
  Modelled from the spec: the store itself (the package's main module, with
  \<open>namespace\<close>, \<open>createKeyPair\<close>, \<open>get\<close> and the \<open>cores\<close> cache) is not among the source
  files; only its tests are. A namespace descriptor is the pair of an application id and
  a discriminator; a child keeps the application id and takes
  \<open>Hash(parentDiscriminator, name)\<close> as its discriminator. The hash is a parameter.
\<close>

record descriptor =
  applicationId :: buffer
  discriminator :: buffer

definition child :: "(buffer \<Rightarrow> string \<Rightarrow> buffer) \<Rightarrow> descriptor \<Rightarrow> string \<Rightarrow> descriptor" where
  "child Hash parent name = parent\<lparr>discriminator := Hash (discriminator parent) name\<rparr>"

text \<open>
  Modelled from the spec: the store's \<open>createKeyPair\<close> under a descriptor. The test
  suite asserts that it equals the standalone derivation applied to the store's
  application id, namespace and primary key.
\<close>

definition deriveKeyPair :: "sodium \<Rightarrow> buffer \<Rightarrow> descriptor \<Rightarrow> string \<Rightarrow> keyPair" where
  "deriveKeyPair s prof d name = createKeyPair s (applicationId d) (discriminator d) name prof"

text \<open>
  Modelled from the spec: the registry (section 4.4). A cache entry is a public key, the
  log instance opened for it and a reference count; a handle wraps the log instance of
  its key. \<open>resolve\<close> returns a new handle on the cached entry, or has the opener
  construct a log instance and inserts an entry with count 1; a failing opener leaves
  the cache as it was. \<open>release\<close> of an open handle decrements the count and removes the
  entry at zero; a handle is released at most once, so releasing one that is not open
  changes nothing.
\<close>

record entry =
  e_publicKey :: buffer
  logInstance :: nat
  refcount :: nat

record handle =
  h_id :: nat
  h_key :: buffer
  h_log :: nat

record registry =
  cache :: "entry list"
  handles :: "handle list"
  opened :: nat
  issued :: nat

definition empty_registry :: registry where
  "empty_registry = \<lparr>cache = [], handles = [], opened = 0, issued = 0\<rparr>"

definition incref :: "buffer \<Rightarrow> entry \<Rightarrow> entry" where
  "incref pk e = (if e_publicKey e = pk then e\<lparr>refcount := refcount e + 1\<rparr> else e)"

definition decref :: "buffer \<Rightarrow> entry \<Rightarrow> entry" where
  "decref pk e = (if e_publicKey e = pk then e\<lparr>refcount := refcount e - 1\<rparr> else e)"

definition resolve :: "bool \<Rightarrow> buffer \<Rightarrow> registry \<Rightarrow> (error + handle) \<times> registry" where
  "resolve opener_ok pk r =
     (case find (\<lambda>e. e_publicKey e = pk) (cache r) of
        Some e \<Rightarrow>
          (let h = \<lparr>h_id = issued r, h_key = pk, h_log = logInstance e\<rparr> in
           (Inr h,
            r\<lparr>cache := map (incref pk) (cache r),
              handles := h # handles r,
              issued := issued r + 1\<rparr>))
      | None \<Rightarrow>
          if opener_ok then
            (let h = \<lparr>h_id = issued r, h_key = pk, h_log = opened r\<rparr> in
             (Inr h,
              r\<lparr>cache := \<lparr>e_publicKey = pk, logInstance = opened r, refcount = 1\<rparr> # cache r,
                handles := h # handles r,
                opened := opened r + 1,
                issued := issued r + 1\<rparr>))
          else (Inl (Error ''OpenFailure''), r))"

definition release :: "handle \<Rightarrow> registry \<Rightarrow> registry" where
  "release h r =
     (if h \<in> set (handles r) then
        r\<lparr>cache := filter (\<lambda>e. 0 < refcount e) (map (decref (h_key h)) (cache r)),
          handles := remove1 h (handles r)\<rparr>
      else r)"

datatype registry_op = Resolve buffer bool | Release handle

fun apply_op :: "registry \<Rightarrow> registry_op \<Rightarrow> registry" where
  "apply_op r (Resolve pk opener_ok) = snd (resolve opener_ok pk r)"
| "apply_op r (Release h) = release h r"

definition run_ops :: "registry_op list \<Rightarrow> registry \<Rightarrow> registry" where
  "run_ops ops r = foldl apply_op r ops"

text \<open>\<open>cores.size\<close>: the number of cache entries.\<close>

definition cores_size :: "registry \<Rightarrow> nat" where
  "cores_size r = length (cache r)"

text \<open>
  The registry's invariant: no two entries share a public key or a log instance; an
  entry's count is the number of open handles on its key and is positive; every open
  handle wraps the log instance of the entry of its key.
\<close>

definition registry_inv :: "registry \<Rightarrow> bool" where
  "registry_inv r \<longleftrightarrow>
     distinct (map e_publicKey (cache r)) \<and>
     distinct (map logInstance (cache r)) \<and>
     (\<forall>e \<in> set (cache r).
        logInstance e < opened r \<and> 0 < refcount e \<and>
        refcount e = length (filter (\<lambda>h. h_key h = e_publicKey e) (handles r))) \<and>
     (\<forall>h \<in> set (handles r).
        \<exists>e \<in> set (cache r). e_publicKey e = h_key h \<and> logInstance e = h_log h)"

section \<open>Stand-ins for closed instances\<close>

text \<open>
  A collision-free stand-in for the two libraries (the digest is the key followed by the
  message, the public key is the seed), a world with no slots and no faults, and a
  manager whose profile is 32 bytes.
\<close>

definition ideal_sodium :: sodium where
  "ideal_sodium =
     \<lparr>crypto_generichash = (\<lambda>n key msg. key @ msg),
      crypto_sign_seed_keypair = (\<lambda>seed. (seed, seed @ seed))\<rparr>"

definition fresh_world :: world where
  "fresh_world =
     \<lparr>disk = (\<lambda>slot. None), faults = (\<lambda>op. None), entropy = (\<lambda>i. word_of_nat i),
      drawn = 0, calls = []\<rparr>"

definition sample_manager :: KeyManager where
  "sample_manager = \<lparr>storage = ''default'', profile = replicate 32 7\<rparr>"

definition default_opts :: opts where
  "default_opts = \<lparr>opt_name = None, opt_overwrite = False\<rparr>"

definition stored_world :: world where
  "stored_world = fresh_world\<lparr>disk := (disk fresh_world)(''default'' := Some (replicate 32 5))\<rparr>"

definition ideal_Hash :: "buffer \<Rightarrow> string \<Rightarrow> buffer" where
  "ideal_Hash d name = d @ ascii name"

text \<open>
  The hash is collision-free when, for every output length and key, distinct messages
  have distinct digests; the signature scheme separates seeds when distinct seeds have
  distinct public keys.
\<close>

definition collision_free :: "sodium \<Rightarrow> bool" where
  "collision_free s = (\<forall>n key. inj (crypto_generichash s n key))"

definition seeds_separated :: "sodium \<Rightarrow> bool" where
  "seeds_separated s = inj (\<lambda>seed. fst (crypto_sign_seed_keypair s seed))"

section \<open>Key derivation (lib/keys.js)\<close>

lemmas keys_defs =
  deriveSeed_def createSecret_def createHypercoreKeyPair_def createNetworkIdentity_def
  blake2b_batch_def sign_seed_keypair_def
  crypto_generichash_BYTES_MIN_def crypto_generichash_BYTES_MAX_def
  crypto_generichash_KEYBYTES_MIN_def crypto_generichash_KEYBYTES_MAX_def

lemma ideal_collision_free: "collision_free ideal_sodium"
  by (simp add: collision_free_def ideal_sodium_def inj_def)

lemma ideal_seeds_separated: "seeds_separated ideal_sodium"
  by (simp add: seeds_separated_def ideal_sodium_def inj_def)

text \<open>
  C1. Key derivation is deterministic. The seed and the key pair are functions of the
  profile, the name and the token (and of the output buffer handed to \<open>deriveSeed\<close>):
  two managers with the same profile, whatever their storage, in any two worlds
  (whatever was stored, drawn or called before), derive the same seed and the same key
  pair, and fail with the same error. \<open>lib/keys.js\<close> has no application id or
  discriminator among the inputs of the derivation.
\<close>

theorem derivation_deterministic:
  assumes "profile km1 = profile km2"
  shows "fst (deriveSeed s (profile km1) token name output w1) =
           fst (deriveSeed s (profile km2) token name output w2) \<and>
         fst (createSecret s km1 name token w1) = fst (createSecret s km2 name token w2) \<and>
         fst (createHypercoreKeyPair s km1 name token w1) =
           fst (createHypercoreKeyPair s km2 name token w2) \<and>
         fst (createNetworkIdentity s km1 name token w1) =
           fst (createNetworkIdentity s km2 name token w2)"
  using assms by (simp add: keys_defs Let_def split: prod.splits)

theorem derivation_deterministic_witness:
  "profile sample_manager = profile (sample_manager\<lparr>storage := ''other''\<rparr>) \<and>
   fst (createHypercoreKeyPair ideal_sodium sample_manager (JSString ''core1'') None fresh_world) =
   fst (createHypercoreKeyPair ideal_sodium (sample_manager\<lparr>storage := ''other''\<rparr>)
          (JSString ''core1'') None (fresh_world\<lparr>drawn := 32, calls := [RandomBytesBuf 32]\<rparr>))"
  using derivation_deterministic [of sample_manager "sample_manager\<lparr>storage := ''other''\<rparr>"
      ideal_sodium None "JSString ''core1''" None fresh_world
      "fresh_world\<lparr>drawn := 32, calls := [RandomBytesBuf 32]\<rparr>"]
  by simp

text \<open>
  C4. A name that is the empty string or not a string makes \<open>deriveSeed\<close>,
  \<open>createSecret\<close>, \<open>createHypercoreKeyPair\<close> and \<open>createNetworkIdentity\<close> throw an
  \<open>Error\<close> and leave the world as it was: no call to the hash, the signature scheme, the
  random source or the storage is logged. The error is the name's unless the token is
  too short, whose check comes first. A non-empty string with an acceptable token never
  gives the name error in any of the four, whatever the profile and the output buffer;
  and when the profile is 16 to 64 bytes long (and the output buffer handed to
  \<open>deriveSeed\<close>, if any, is too) all four return a value.
\<close>

theorem invalid_name_rejected:
  "(name = JSString [] \<or> (\<forall>n. name \<noteq> JSString n) \<longrightarrow>
      (let err = Error (if token_too_short token then ''Token must be a Buffer with length >= 32''
                        else ''name must be a String'')
       in deriveSeed s prof token name output w = (Inl err, w) \<and>
          createSecret s km name token w = (Inl err, w) \<and>
          createHypercoreKeyPair s km name token w = (Inl err, w) \<and>
          createNetworkIdentity s km name token w = (Inl err, w))) \<and>
   ((\<exists>n. name = JSString n \<and> n \<noteq> []) \<and> \<not> token_too_short token \<longrightarrow>
      fst (deriveSeed s prof token name output w) \<noteq> Inl (Error ''name must be a String'') \<and>
      fst (createSecret s km name token w) \<noteq> Inl (Error ''name must be a String'') \<and>
      fst (createHypercoreKeyPair s km name token w) \<noteq> Inl (Error ''name must be a String'') \<and>
      fst (createNetworkIdentity s km name token w) \<noteq> Inl (Error ''name must be a String'') \<and>
      ((output = None \<or> (\<exists>b. output = Some b \<and> 16 \<le> length b \<and> length b \<le> 64)) \<and>
       16 \<le> length prof \<and> length prof \<le> 64 \<longrightarrow>
         (\<exists>seed. fst (deriveSeed s prof token name output w) = Inr seed)) \<and>
      (16 \<le> length (profile km) \<and> length (profile km) \<le> 64 \<longrightarrow>
         (\<exists>seed. fst (createSecret s km name token w) = Inr seed) \<and>
         (\<exists>kp. fst (createHypercoreKeyPair s km name token w) = Inr kp) \<and>
         (\<exists>kp. fst (createNetworkIdentity s km name token w) = Inr kp)))"
  by (cases name)
    (auto simp: keys_defs name_invalid_def Let_def
      split: prod.splits sum.splits if_splits option.splits)

theorem invalid_name_rejected_witness:
  "createHypercoreKeyPair ideal_sodium sample_manager (JSString []) None fresh_world =
     (Inl (Error ''name must be a String''), fresh_world) \<and>
   deriveSeed ideal_sodium (profile sample_manager) None JSUndefined None fresh_world =
     (Inl (Error ''name must be a String''), fresh_world) \<and>
   createNetworkIdentity ideal_sodium sample_manager (JSBuffer [1, 2]) (Some [3]) fresh_world =
     (Inl (Error ''Token must be a Buffer with length >= 32''), fresh_world) \<and>
   (\<exists>kp. fst (createHypercoreKeyPair ideal_sodium sample_manager (JSString ''core1'') None
             fresh_world) = Inr kp) \<and>
   fst (createHypercoreKeyPair ideal_sodium (sample_manager\<lparr>profile := replicate 15 7\<rparr>)
          (JSString ''core1'') None fresh_world) \<noteq> Inl (Error ''name must be a String'')"
  using invalid_name_rejected [of "JSString ''core1''" None ideal_sodium "replicate 15 7" None
      fresh_world "sample_manager\<lparr>profile := replicate 15 7\<rparr>"]
    invalid_name_rejected [of "JSString []" None ideal_sodium "profile sample_manager" None
      fresh_world sample_manager]
    invalid_name_rejected [of JSUndefined None ideal_sodium "profile sample_manager" None
      fresh_world sample_manager]
    invalid_name_rejected [of "JSBuffer [1, 2]" "Some [3]" ideal_sodium "profile sample_manager"
      None fresh_world sample_manager]
    invalid_name_rejected [of "JSString ''core1''" None ideal_sodium "profile sample_manager" None
      fresh_world sample_manager]
  by (simp add: token_too_short_def sample_manager_def Let_def)

text \<open>
  C5. A supplied token shorter than 32 bytes makes the four operations throw the token
  error, whatever the name, and nothing is produced or called; an absent token or one
  of 32 bytes or more never gives that error.
\<close>

theorem short_token_rejected:
  "(\<forall>t. token = Some t \<and> length t < 32 \<longrightarrow>
      deriveSeed s prof token name output w =
        (Inl (Error ''Token must be a Buffer with length >= 32''), w) \<and>
      createSecret s km name token w =
        (Inl (Error ''Token must be a Buffer with length >= 32''), w) \<and>
      createHypercoreKeyPair s km name token w =
        (Inl (Error ''Token must be a Buffer with length >= 32''), w) \<and>
      createNetworkIdentity s km name token w =
        (Inl (Error ''Token must be a Buffer with length >= 32''), w)) \<and>
   (token = None \<or> (\<exists>t. token = Some t \<and> 32 \<le> length t) \<longrightarrow>
      fst (deriveSeed s prof token name output w) \<noteq>
        Inl (Error ''Token must be a Buffer with length >= 32'') \<and>
      fst (createSecret s km name token w) \<noteq>
        Inl (Error ''Token must be a Buffer with length >= 32'') \<and>
      fst (createHypercoreKeyPair s km name token w) \<noteq>
        Inl (Error ''Token must be a Buffer with length >= 32'') \<and>
      fst (createNetworkIdentity s km name token w) \<noteq>
        Inl (Error ''Token must be a Buffer with length >= 32''))"
  by (auto simp: keys_defs token_too_short_def Let_def split: prod.splits)

theorem short_token_rejected_witness:
  "createHypercoreKeyPair ideal_sodium sample_manager (JSString ''core1'') (Some (ascii ''hello''))
     fresh_world = (Inl (Error ''Token must be a Buffer with length >= 32''), fresh_world) \<and>
   fst (createHypercoreKeyPair ideal_sodium sample_manager (JSString ''core1'')
          (Some (replicate 32 9)) fresh_world) \<noteq>
     Inl (Error ''Token must be a Buffer with length >= 32'') \<and>
   fst (createHypercoreKeyPair ideal_sodium sample_manager (JSString ''core1'') None fresh_world) \<noteq>
     Inl (Error ''Token must be a Buffer with length >= 32'')"
  using short_token_rejected [of "Some (ascii ''hello'')" ideal_sodium "profile sample_manager"
      "JSString ''core1''" None fresh_world sample_manager]
    short_token_rejected [of "Some (replicate 32 9)" ideal_sodium "profile sample_manager"
      "JSString ''core1''" None fresh_world sample_manager]
    short_token_rejected [of None ideal_sodium "profile sample_manager"
      "JSString ''core1''" None fresh_world sample_manager]
  by (simp add: ascii_def)

text \<open>
  C6. With a collision-free hash and a signature scheme that separates seeds, on a
  manager whose profile the hash accepts as a key (16 to 64 bytes), the same name
  derived under two distinct tokens of at least 32 bytes gives two key pairs with
  different public keys: the messages hashed differ in the token and in nothing else.
  With a profile of another length neither derivation produces a key pair.
\<close>

theorem distinct_tokens_distinct_keys:
  assumes "collision_free s" and "seeds_separated s"
    and "n \<noteq> []" and "32 \<le> length t1" and "32 \<le> length t2" and "t1 \<noteq> t2"
  shows "(16 \<le> length (profile km) \<and> length (profile km) \<le> 64 \<longrightarrow>
          (\<exists>kp1 kp2.
             fst (createHypercoreKeyPair s km (JSString n) (Some t1) w1) = Inr kp1 \<and>
             fst (createHypercoreKeyPair s km (JSString n) (Some t2) w2) = Inr kp2 \<and>
             publicKey kp1 \<noteq> publicKey kp2)) \<and>
         (\<not> (16 \<le> length (profile km) \<and> length (profile km) \<le> 64) \<longrightarrow>
          fst (createHypercoreKeyPair s km (JSString n) (Some t1) w1) = Inl SodiumError \<and>
          fst (createHypercoreKeyPair s km (JSString n) (Some t2) w2) = Inl SodiumError)"
proof -
  let ?enc = "ascii (decimal (length n) @ [CHR 0x0A] @ n)"
  let ?h = "crypto_generichash s 32 (profile km)"
  have msgs: "concat [NAMESPACE, t1, ?enc] \<noteq> concat [NAMESPACE, t2, ?enc]"
    using assms(6) by simp
  from assms(1) have "inj ?h"
    by (simp add: collision_free_def)
  with msgs have seeds: "?h (concat [NAMESPACE, t1, ?enc]) \<noteq> ?h (concat [NAMESPACE, t2, ?enc])"
    by (auto dest: injD)
  with assms(2)
  have "fst (crypto_sign_seed_keypair s (?h (concat [NAMESPACE, t1, ?enc]))) \<noteq>
        fst (crypto_sign_seed_keypair s (?h (concat [NAMESPACE, t2, ?enc])))"
    unfolding seeds_separated_def by (auto dest: injD)
  then show ?thesis
    using assms(3-5)
    by (auto simp: keys_defs name_invalid_def token_too_short_def Let_def split: prod.splits)
qed

theorem distinct_tokens_distinct_keys_witness:
  "\<exists>kp1 kp2.
     fst (createHypercoreKeyPair ideal_sodium sample_manager (JSString ''core1'')
            (Some (replicate 32 1)) fresh_world) = Inr kp1 \<and>
     fst (createHypercoreKeyPair ideal_sodium sample_manager (JSString ''core1'')
            (Some (replicate 32 2)) fresh_world) = Inr kp2 \<and>
     publicKey kp1 \<noteq> publicKey kp2"
  using distinct_tokens_distinct_keys [OF ideal_collision_free ideal_seeds_separated,
      of "''core1''" "replicate 32 1" "replicate 32 2" sample_manager fresh_world fresh_world]
  by (simp add: sample_manager_def)

text \<open>
  C10. Whenever \<open>createHypercoreKeyPair\<close> returns a key pair for a name and a token,
  \<open>createNetworkIdentity\<close> on the same manager returns one with the same public key:
  both hand the seed of \<open>createSecret\<close> to \<open>crypto_sign_seed_keypair\<close>.
\<close>

theorem same_public_key:
  "fst (createHypercoreKeyPair s km name token w) = Inr kp \<Longrightarrow>
   \<exists>kp'. fst (createNetworkIdentity s km name token w') = Inr kp' \<and>
         publicKey kp' = publicKey kp"
  by (auto simp: keys_defs Let_def split: prod.splits if_splits)

theorem same_public_key_witness:
  "fst (createHypercoreKeyPair ideal_sodium sample_manager (JSString ''core1'') None fresh_world) =
     Inr \<lparr>publicKey = replicate 32 7 @ NAMESPACE @ ascii ''5'' @ [10] @ ascii ''core1'',
          secretKey = (replicate 32 7 @ NAMESPACE @ ascii ''5'' @ [10] @ ascii ''core1'') @
                      (replicate 32 7 @ NAMESPACE @ ascii ''5'' @ [10] @ ascii ''core1'')\<rparr> \<and>
   (\<exists>kp'. fst (createNetworkIdentity ideal_sodium sample_manager (JSString ''core1'') None
              (fresh_world\<lparr>drawn := 32\<rparr>)) = Inr kp' \<and>
          publicKey kp' = replicate 32 7 @ NAMESPACE @ ascii ''5'' @ [10] @ ascii ''core1'')"
proof -
  have run: "fst (createHypercoreKeyPair ideal_sodium sample_manager (JSString ''core1'') None
                    fresh_world) =
     Inr \<lparr>publicKey = replicate 32 7 @ NAMESPACE @ ascii ''5'' @ [10] @ ascii ''core1'',
          secretKey = (replicate 32 7 @ NAMESPACE @ ascii ''5'' @ [10] @ ascii ''core1'') @
                      (replicate 32 7 @ NAMESPACE @ ascii ''5'' @ [10] @ ascii ''core1'')\<rparr>"
    by (simp add: keys_defs name_invalid_def token_too_short_def ideal_sodium_def
        sample_manager_def DEFAULT_TOKEN_def decimal.simps digit_char_def ascii_def Let_def)
  show ?thesis
    using run same_public_key [OF run, of "fresh_world\<lparr>drawn := 32\<rparr>"] by simp
qed

section \<open>Opening the profile (KeyManager.fromStorage)\<close>

lemmas storage_defs =
  fromStorage_def write_new_key_def storage_stat_def storage_write_def storage_read_def
  randomBytes_def log_call_def error_code_def write_at_def

lemma sample_keys_differ: "replicate 32 5 \<noteq> (map word_of_nat [0..<32] :: buffer)"
proof
  assume "replicate 32 5 = (map word_of_nat [0..<32] :: buffer)"
  then have "hd (replicate 32 5) = hd (map word_of_nat [0..<32] :: buffer)" by simp
  then show False by (simp add: upt_conv_Cons)
qed

lemma stored_world_no_faults: "\<forall>op. faults stored_world op = None"
  by (simp add: stored_world_def fresh_world_def)

lemma stored_world_next_key:
  "map (entropy stored_world) [drawn stored_world ..< drawn stored_world + 32] =
     map word_of_nat [0..<32]"
  by (simp add: stored_world_def fresh_world_def)

text \<open>
  C3. Opening without \<open>overwrite\<close>, on a storage that reports no I/O error: when the
  slot does not exist or holds fewer than 32 bytes (none included), the profile is the
  next 32 random bytes, they are what the slot holds afterwards, and the calls made are
  stat, randombytes and one write at offset 0; otherwise the profile is the first 32
  stored bytes, the storage is unchanged and the calls are stat and one read. In both
  cases a second open of the resulting world returns the same manager.
\<close>

theorem fromStorage_read_or_generate:
  assumes "\<forall>op. faults w op = None" and "\<not> opt_overwrite opts"
  shows "(let slot = slot_name opts;
              key = map (entropy w) [drawn w ..< drawn w + 32];
              (r, w') = fromStorage opts w
          in (if (case disk w slot of None \<Rightarrow> True | Some b \<Rightarrow> length b < 32)
              then r = Inr \<lparr>storage = slot, profile = key\<rparr> \<and> length key = 32 \<and>
                   disk w' slot = Some key \<and>
                   calls w' = calls w @ [Stat slot, RandomBytesBuf 32, Write slot 0 key]
              else r = Inr \<lparr>storage = slot, profile = take 32 (the (disk w slot))\<rparr> \<and>
                   disk w' = disk w \<and>
                   calls w' = calls w @ [Stat slot, Read slot 0 32]) \<and>
             fst (fromStorage opts w') = r)"
  using assms
  by (auto simp: storage_defs Let_def split: option.splits prod.splits)

theorem fromStorage_read_or_generate_witness:
  "fst (fromStorage default_opts fresh_world) =
     Inr \<lparr>storage = ''default'', profile = map word_of_nat [0..<32]\<rparr> \<and>
   disk (snd (fromStorage default_opts fresh_world)) ''default'' = Some (map word_of_nat [0..<32]) \<and>
   fst (fromStorage default_opts (snd (fromStorage default_opts fresh_world))) =
     Inr \<lparr>storage = ''default'', profile = map word_of_nat [0..<32]\<rparr> \<and>
   fst (fromStorage default_opts stored_world) =
     Inr \<lparr>storage = ''default'', profile = replicate 32 5\<rparr>"
  using fromStorage_read_or_generate [of fresh_world default_opts]
    fromStorage_read_or_generate [of stored_world default_opts]
  by (simp add: default_opts_def fresh_world_def stored_world_def slot_name_def Let_def
      split: prod.splits)

text \<open>
  C9. Opening with \<open>overwrite\<close> set never reads the slot: the calls it adds contain no
  read. Whenever it returns a manager, the profile is the next 32 random bytes and they
  have replaced the first 32 bytes of the slot, whatever it held. On a storage that
  reports no I/O error it does return that manager, and a later open without
  \<open>overwrite\<close> returns the new profile, not the one stored before.
\<close>

theorem fromStorage_overwrite:
  assumes "opt_overwrite opts"
  shows "(let slot = slot_name opts;
              key = map (entropy w) [drawn w ..< drawn w + 32];
              old = (case disk w slot of None \<Rightarrow> [] | Some b \<Rightarrow> b);
              (r, w') = fromStorage opts w
          in (\<exists>cs. calls w' = calls w @ cs \<and> (\<forall>off n. Read slot off n \<notin> set cs)) \<and>
             (\<forall>km. r = Inr km \<longrightarrow>
                km = \<lparr>storage = slot, profile = key\<rparr> \<and> length key = 32 \<and>
                disk w' slot = Some (key @ drop 32 old)) \<and>
             ((\<forall>op. faults w op = None) \<longrightarrow>
                r = Inr \<lparr>storage = slot, profile = key\<rparr> \<and>
                fst (fromStorage (opts\<lparr>opt_overwrite := False\<rparr>) w') =
                  Inr \<lparr>storage = slot, profile = key\<rparr>))"
  using assms
  by (auto simp: storage_defs slot_name_def Let_def split: option.splits prod.splits)

theorem fromStorage_overwrite_witness:
  "disk stored_world ''default'' = Some (replicate 32 5) \<and>
   fst (fromStorage (default_opts\<lparr>opt_overwrite := True\<rparr>) stored_world) =
     Inr \<lparr>storage = ''default'', profile = map word_of_nat [0..<32]\<rparr> \<and>
   fst (fromStorage default_opts
          (snd (fromStorage (default_opts\<lparr>opt_overwrite := True\<rparr>) stored_world))) =
     Inr \<lparr>storage = ''default'', profile = map word_of_nat [0..<32]\<rparr> \<and>
   replicate 32 5 \<noteq> (map word_of_nat [0..<32] :: buffer)"
proof -
  have over: "opt_overwrite (default_opts\<lparr>opt_overwrite := True\<rparr>)"
    by simp
  have slot: "slot_name (default_opts\<lparr>opt_overwrite := True\<rparr>) = ''default''"
    by (simp add: slot_name_def default_opts_def)
  have reopen: "(default_opts\<lparr>opt_overwrite := True\<rparr>)\<lparr>opt_overwrite := False\<rparr> = default_opts"
    by (simp add: default_opts_def)
  have stored: "disk stored_world ''default'' = Some (replicate 32 5)"
    by (simp add: stored_world_def)
  note run = fromStorage_overwrite [OF over, of stored_world,
      unfolded Let_def case_prod_beta slot stored_world_next_key reopen]
  from run stored_world_no_faults
  have "fst (fromStorage (default_opts\<lparr>opt_overwrite := True\<rparr>) stored_world) =
          Inr \<lparr>storage = ''default'', profile = map word_of_nat [0..<32]\<rparr> \<and>
        fst (fromStorage default_opts
               (snd (fromStorage (default_opts\<lparr>opt_overwrite := True\<rparr>) stored_world))) =
          Inr \<lparr>storage = ''default'', profile = map word_of_nat [0..<32]\<rparr>"
    by blast
  with stored sample_keys_differ show ?thesis by blast
qed

section \<open>Application id and namespace in the derivation\<close>

lemma createKeyPair_publicKey:
  "publicKey (createKeyPair s a d name pk) =
     fst (crypto_sign_seed_keypair s (crypto_generichash s 32 pk (a @ d @ utf8 name)))"
  by (simp add: createKeyPair_def Let_def split: prod.splits)

lemma createKeyPair_message:
  "createKeyPair s a d name pk =
     (case crypto_sign_seed_keypair s (crypto_generichash s 32 pk ((a @ d) @ utf8 name)) of
        (pub, sec) \<Rightarrow> \<lparr>publicKey = pub, secretKey = sec\<rparr>)"
  by (simp add: createKeyPair_def)

text \<open>
  The batch is hashed as one stream: the key pair depends on the application id and the
  namespace through their concatenation only, whatever the hash is.
\<close>

lemma createKeyPair_concat:
  assumes "a @ d = a' @ d'"
  shows "createKeyPair s a d name pk = createKeyPair s a' d' name pk"
  using assms by (simp only: createKeyPair_message)

lemma publicKey_differs_iff:
  assumes "collision_free s" and "seeds_separated s"
  shows "publicKey (createKeyPair s a d name pk) \<noteq> publicKey (createKeyPair s a' d' name pk)
         \<longleftrightarrow> a @ d \<noteq> a' @ d'"
proof -
  let ?h = "crypto_generichash s 32 pk"
  from assms(1) have h: "inj ?h"
    by (simp add: collision_free_def)
  from assms(2) have sep: "inj (\<lambda>seed. fst (crypto_sign_seed_keypair s seed))"
    by (simp add: seeds_separated_def)
  have "publicKey (createKeyPair s a d name pk) = publicKey (createKeyPair s a' d' name pk)
        \<longleftrightarrow> ?h (a @ d @ utf8 name) = ?h (a' @ d' @ utf8 name)"
    unfolding createKeyPair_publicKey by (rule inj_eq [OF sep])
  also have "\<dots> \<longleftrightarrow> a @ d @ utf8 name = a' @ d' @ utf8 name"
    by (rule inj_eq [OF h])
  also have "\<dots> \<longleftrightarrow> a @ d = a' @ d'"
    using append_same_eq [of "a @ d" "utf8 name" "a' @ d'"] by simp
  finally show ?thesis by simp
qed

lemma inj_ascii_char: "inj (\<lambda>c::char. (word_of_nat (of_char c) :: byte))"
proof (rule injI)
  fix a b :: char
  assume "(word_of_nat (of_char a) :: byte) = word_of_nat (of_char b)"
  then have "unat (word_of_nat (of_char a) :: byte) = unat (word_of_nat (of_char b) :: byte)"
    by simp
  then have "(of_char a :: nat) = of_char b"
    by (simp add: unat_of_nat)
  then show "a = b" by simp
qed

lemma inj_ascii: "inj ascii"
  unfolding ascii_def using inj_ascii_char by (rule inj_mapI)

lemma ideal_Hash_inj: "inj (ideal_Hash d)"
  using inj_ascii by (auto simp: ideal_Hash_def inj_def)

text \<open>
  C2, as stated, fails: the application id \<open>ab\<close> with an empty namespace and the
  application id \<open>a\<close> with the namespace \<open>b\<close> derive the same key pair for the same name
  and primary key (with any hash, by \<open>createKeyPair_concat\<close>; here with the
  collision-free stand-in).
\<close>

theorem application_namespace_counterexample:
  "(ascii ''ab'', []) \<noteq> (ascii ''a'', ascii ''b'') \<and>
   createKeyPair ideal_sodium (ascii ''ab'') [] ''hello'' (replicate 32 7) =
   createKeyPair ideal_sodium (ascii ''a'') (ascii ''b'') ''hello'' (replicate 32 7)"
  by (simp add: createKeyPair_concat ascii_def)

text \<open>
  C2, amended. With a collision-free hash and a signature scheme that separates seeds,
  for a fixed name and primary key: changing the application id alone changes the
  public key, changing the namespace alone changes it, and in general the public key
  changes exactly when the concatenation of application id and namespace does.
\<close>

theorem application_or_namespace_changes_key:
  assumes "collision_free s" and "seeds_separated s"
  shows "(a \<noteq> a' \<longrightarrow>
            publicKey (createKeyPair s a d name pk) \<noteq> publicKey (createKeyPair s a' d name pk)) \<and>
         (d \<noteq> d' \<longrightarrow>
            publicKey (createKeyPair s a d name pk) \<noteq> publicKey (createKeyPair s a d' name pk)) \<and>
         (publicKey (createKeyPair s a d name pk) \<noteq> publicKey (createKeyPair s a' d' name pk)
            \<longleftrightarrow> a @ d \<noteq> a' @ d')"
  using publicKey_differs_iff [OF assms] by simp

theorem application_or_namespace_changes_key_witness:
  "publicKey (createKeyPair ideal_sodium (ascii ''corestore'') [] ''hello'' (replicate 32 7)) \<noteq>
   publicKey (createKeyPair ideal_sodium (ascii ''foo'') [] ''hello'' (replicate 32 7)) \<and>
   publicKey (createKeyPair ideal_sodium (ascii ''foo'') (replicate 32 1) ''hello'' (replicate 32 7)) \<noteq>
   publicKey (createKeyPair ideal_sodium (ascii ''foo'') (replicate 32 2) ''hello'' (replicate 32 7))"
  using application_or_namespace_changes_key [OF ideal_collision_free ideal_seeds_separated,
      of "ascii ''corestore''" "ascii ''foo''" "[]" "''hello''" "replicate 32 7" "[]"]
    application_or_namespace_changes_key [OF ideal_collision_free ideal_seeds_separated,
      of "ascii ''foo''" "ascii ''foo''" "replicate 32 1" "''hello''" "replicate 32 7" "replicate 32 2"]
  by (simp add: ascii_def)

section \<open>Namespaces\<close>

text \<open>
  C7. A child descriptor is a value of its parent's fields and the name: byte-identical
  parents and the same name give identical children, which derive identical key pairs
  for every leaf name; the child keeps the application id. With a namespace hash that
  is collision-free on names, a collision-free derivation hash and a signature scheme
  that separates seeds, two distinct names give two distinct children whose public keys
  for the same leaf name differ.
\<close>

theorem child_namespaces:
  assumes "collision_free s" and "seeds_separated s" and "inj (Hash (discriminator parent))"
  shows "(applicationId parent' = applicationId parent \<and>
          discriminator parent' = discriminator parent \<longrightarrow>
            child Hash parent' name = child Hash parent name \<and>
            deriveKeyPair s prof (child Hash parent' name) leaf =
              deriveKeyPair s prof (child Hash parent name) leaf) \<and>
         applicationId (child Hash parent name) = applicationId parent \<and>
         (nameA \<noteq> nameB \<longrightarrow>
            child Hash parent nameA \<noteq> child Hash parent nameB \<and>
            publicKey (deriveKeyPair s prof (child Hash parent nameA) leaf) \<noteq>
              publicKey (deriveKeyPair s prof (child Hash parent nameB) leaf))"
proof -
  have "Hash (discriminator parent) nameA \<noteq> Hash (discriminator parent) nameB"
    if "nameA \<noteq> nameB"
    using assms(3) that by (auto dest: injD)
  moreover have "child Hash parent nameA \<noteq> child Hash parent nameB"
    if "Hash (discriminator parent) nameA \<noteq> Hash (discriminator parent) nameB"
  proof
    assume "child Hash parent nameA = child Hash parent nameB"
    then have "discriminator (child Hash parent nameA) = discriminator (child Hash parent nameB)"
      by simp
    with that show False by (simp add: child_def)
  qed
  ultimately show ?thesis
    using publicKey_differs_iff [OF assms(1,2)]
    by (auto simp: child_def deriveKeyPair_def)
qed

theorem child_namespaces_witness:
  "child ideal_Hash \<lparr>applicationId = ascii ''corestore'', discriminator = []\<rparr> ''ns1'' =
     \<lparr>applicationId = ascii ''corestore'', discriminator = ascii ''ns1''\<rparr> \<and>
   child ideal_Hash \<lparr>applicationId = ascii ''corestore'', discriminator = []\<rparr> ''ns1'' \<noteq>
     child ideal_Hash \<lparr>applicationId = ascii ''corestore'', discriminator = []\<rparr> ''ns2'' \<and>
   publicKey (deriveKeyPair ideal_sodium (replicate 32 7)
     (child ideal_Hash \<lparr>applicationId = ascii ''corestore'', discriminator = []\<rparr> ''ns1'')
     ''main'') \<noteq>
   publicKey (deriveKeyPair ideal_sodium (replicate 32 7)
     (child ideal_Hash \<lparr>applicationId = ascii ''corestore'', discriminator = []\<rparr> ''ns2'')
     ''main'')"
  using child_namespaces [where s = ideal_sodium and Hash = ideal_Hash
      and parent = "\<lparr>applicationId = ascii ''corestore'', discriminator = []\<rparr>"
      and parent' = "\<lparr>applicationId = ascii ''corestore'', discriminator = []\<rparr>"
      and name = "''ns1''" and prof = "replicate 32 7" and leaf = "''main''"
      and nameA = "''ns1''" and nameB = "''ns2''"]
    ideal_collision_free ideal_seeds_separated ideal_Hash_inj
  by (simp add: child_def ideal_Hash_def)

section \<open>The core registry\<close>

lemma inv_empty: "registry_inv empty_registry"
  by (simp add: registry_inv_def empty_registry_def)

lemma registry_invI:
  assumes "distinct (map e_publicKey (cache r))"
    and "distinct (map logInstance (cache r))"
    and "\<And>e. e \<in> set (cache r) \<Longrightarrow>
           logInstance e < opened r \<and> 0 < refcount e \<and>
           refcount e = length (filter (\<lambda>h. h_key h = e_publicKey e) (handles r))"
    and "\<And>h. h \<in> set (handles r) \<Longrightarrow>
           \<exists>e \<in> set (cache r). e_publicKey e = h_key h \<and> logInstance e = h_log h"
  shows "registry_inv r"
  unfolding registry_inv_def using assms by blast

lemma registry_invD:
  assumes "registry_inv r"
  shows "distinct (map e_publicKey (cache r))"
    and "distinct (map logInstance (cache r))"
    and "e \<in> set (cache r) \<Longrightarrow> logInstance e < opened r"
    and "e \<in> set (cache r) \<Longrightarrow> 0 < refcount e"
    and "e \<in> set (cache r) \<Longrightarrow>
           refcount e = length (filter (\<lambda>h. h_key h = e_publicKey e) (handles r))"
    and "h \<in> set (handles r) \<Longrightarrow>
           \<exists>e \<in> set (cache r). e_publicKey e = h_key h \<and> logInstance e = h_log h"
  using assms unfolding registry_inv_def by blast+

lemma count_remove1_hit:
  "h \<in> set xs \<Longrightarrow> P h \<Longrightarrow> Suc (length (filter P (remove1 h xs))) = length (filter P xs)"
  by (induction xs) auto

lemma count_remove1_miss: "\<not> P h \<Longrightarrow> filter P (remove1 h xs) = filter P xs"
  by (induction xs) auto

lemma incref_fields [simp]:
  "e_publicKey (incref pk e) = e_publicKey e"
  "logInstance (incref pk e) = logInstance e"
  "refcount (incref pk e) = (if e_publicKey e = pk then refcount e + 1 else refcount e)"
  by (simp_all add: incref_def)

lemma decref_fields [simp]:
  "e_publicKey (decref pk e) = e_publicKey e"
  "logInstance (decref pk e) = logInstance e"
  "refcount (decref pk e) = (if e_publicKey e = pk then refcount e - 1 else refcount e)"
  by (simp_all add: decref_def)

lemma inv_resolve_hit:
  assumes inv: "registry_inv r" and e: "e \<in> set (cache r)" "e_publicKey e = pk"
  shows "registry_inv
           (r\<lparr>cache := map (incref pk) (cache r),
              handles := \<lparr>h_id = issued r, h_key = pk, h_log = logInstance e\<rparr> # handles r,
              issued := issued r + 1\<rparr>)"
    (is "registry_inv ?r'")
proof (rule registry_invI)
  let ?h = "\<lparr>h_id = issued r, h_key = pk, h_log = logInstance e\<rparr>"
  show "distinct (map e_publicKey (cache ?r'))"
    using registry_invD(1) [OF inv] by (simp add: comp_def)
  show "distinct (map logInstance (cache ?r'))"
    using registry_invD(2) [OF inv] by (simp add: comp_def)
  show "logInstance x < opened ?r' \<and> 0 < refcount x \<and>
        refcount x = length (filter (\<lambda>h. h_key h = e_publicKey x) (handles ?r'))"
    if "x \<in> set (cache ?r')" for x
  proof -
    from that obtain e0 where e0: "e0 \<in> set (cache r)" "x = incref pk e0"
      by auto
    from registry_invD(3-5) [OF inv e0(1)] e0(2) show ?thesis
      by auto
  qed
  show "\<exists>x \<in> set (cache ?r'). e_publicKey x = h_key h \<and> logInstance x = h_log h"
    if "h \<in> set (handles ?r')" for h
  proof -
    have "\<exists>e0 \<in> set (cache r). e_publicKey e0 = h_key h \<and> logInstance e0 = h_log h"
    proof (cases "h = ?h")
      case True
      with e show ?thesis by auto
    next
      case False
      with that have "h \<in> set (handles r)" by simp
      then show ?thesis by (rule registry_invD(6) [OF inv])
    qed
    then obtain e0 where e0: "e0 \<in> set (cache r)" "e_publicKey e0 = h_key h"
        "logInstance e0 = h_log h"
      by blast
    from e0(1) have "incref pk e0 \<in> incref pk ` set (cache r)"
      by (rule imageI)
    then have "incref pk e0 \<in> set (cache ?r')" by simp
    moreover have "e_publicKey (incref pk e0) = h_key h \<and> logInstance (incref pk e0) = h_log h"
      using e0 by simp
    ultimately show ?thesis by blast
  qed
qed

lemma inv_resolve_miss:
  assumes inv: "registry_inv r" and nokey: "\<forall>e \<in> set (cache r). e_publicKey e \<noteq> pk"
  shows "registry_inv
           (r\<lparr>cache := \<lparr>e_publicKey = pk, logInstance = opened r, refcount = 1\<rparr> # cache r,
              handles := \<lparr>h_id = issued r, h_key = pk, h_log = opened r\<rparr> # handles r,
              opened := opened r + 1,
              issued := issued r + 1\<rparr>)"
    (is "registry_inv ?r'")
proof (rule registry_invI)
  have nohandle: "h_key h \<noteq> pk" if "h \<in> set (handles r)" for h
    using registry_invD(6) [OF inv that] nokey by metis
  then have cnt: "filter (\<lambda>h. h_key h = pk) (handles r) = []"
    by (simp add: filter_empty_conv)
  have "logInstance e \<noteq> opened r" if "e \<in> set (cache r)" for e
    using registry_invD(3) [OF inv that] by simp
  then have logs: "\<forall>e \<in> set (cache r). logInstance e \<noteq> opened r"
    by blast
  show "distinct (map e_publicKey (cache ?r'))"
    using registry_invD(1) [OF inv] nokey by auto
  show "distinct (map logInstance (cache ?r'))"
    using registry_invD(2) [OF inv] logs by auto
  show "logInstance x < opened ?r' \<and> 0 < refcount x \<and>
        refcount x = length (filter (\<lambda>h. h_key h = e_publicKey x) (handles ?r'))"
    if "x \<in> set (cache ?r')" for x
  proof (cases "x = \<lparr>e_publicKey = pk, logInstance = opened r, refcount = 1\<rparr>")
    case True
    then show ?thesis by (simp add: cnt)
  next
    case False
    with that have x: "x \<in> set (cache r)" by simp
    with nokey have "e_publicKey x \<noteq> pk" by blast
    with registry_invD(3-5) [OF inv x] show ?thesis by auto
  qed
  show "\<exists>x \<in> set (cache ?r'). e_publicKey x = h_key h \<and> logInstance x = h_log h"
    if "h \<in> set (handles ?r')" for h
  proof (cases "h = \<lparr>h_id = issued r, h_key = pk, h_log = opened r\<rparr>")
    case True
    then show ?thesis by simp
  next
    case False
    with that have "h \<in> set (handles r)" by simp
    from registry_invD(6) [OF inv this] show ?thesis by auto
  qed
qed

lemma inv_resolve: "registry_inv r \<Longrightarrow> registry_inv (snd (resolve ok pk r))"
proof (cases "find (\<lambda>e. e_publicKey e = pk) (cache r)")
  case None
  assume inv: "registry_inv r"
  from None have nokey: "\<forall>e \<in> set (cache r). e_publicKey e \<noteq> pk"
    by (simp add: find_None_iff)
  from inv_resolve_miss [OF inv nokey] inv None show ?thesis
    by (simp add: resolve_def Let_def)
next
  case (Some e)
  assume inv: "registry_inv r"
  from Some have e: "e \<in> set (cache r)" "e_publicKey e = pk"
    by (auto simp: find_Some_iff in_set_conv_nth)
  from inv_resolve_hit [OF inv e] Some show ?thesis
    by (simp add: resolve_def Let_def)
qed

lemma inv_release_live:
  assumes inv: "registry_inv r" and live: "h \<in> set (handles r)"
  shows "registry_inv
           (r\<lparr>cache := filter (\<lambda>e. 0 < refcount e) (map (decref (h_key h)) (cache r)),
              handles := remove1 h (handles r)\<rparr>)"
    (is "registry_inv ?r'")
proof (rule registry_invI)
  let ?k = "h_key h"
  have count: "length (filter (\<lambda>h'. h_key h' = k) (remove1 h (handles r))) =
      (if k = ?k then length (filter (\<lambda>h'. h_key h' = k) (handles r)) - 1
       else length (filter (\<lambda>h'. h_key h' = k) (handles r)))" for k
    using count_remove1_hit [OF live, of "\<lambda>h'. h_key h' = k"]
      count_remove1_miss [of "\<lambda>h'. h_key h' = k" h "handles r"]
    by auto
  show "distinct (map e_publicKey (cache ?r'))"
    using registry_invD(1) [OF inv] by (simp add: distinct_map_filter comp_def)
  show "distinct (map logInstance (cache ?r'))"
    using registry_invD(2) [OF inv] by (simp add: distinct_map_filter comp_def)
  show "logInstance x < opened ?r' \<and> 0 < refcount x \<and>
        refcount x = length (filter (\<lambda>h'. h_key h' = e_publicKey x) (handles ?r'))"
    if "x \<in> set (cache ?r')" for x
  proof -
    from that obtain e0 where e0: "e0 \<in> set (cache r)" "x = decref ?k e0" "0 < refcount x"
      by auto
    from registry_invD(3-5) [OF inv e0(1)] e0(2,3) show ?thesis
      by (auto simp: count)
  qed
  show "\<exists>x \<in> set (cache ?r'). e_publicKey x = h_key h' \<and> logInstance x = h_log h'"
    if "h' \<in> set (handles ?r')" for h'
  proof -
    from that have new: "h' \<in> set (remove1 h (handles r))" by simp
    then have old: "h' \<in> set (handles r)"
      using set_remove1_subset [of h "handles r"] by blast
    from registry_invD(6) [OF inv old]
    obtain e0 where e0: "e0 \<in> set (cache r)" "e_publicKey e0 = h_key h'"
        "logInstance e0 = h_log h'"
      by blast
    from new have "filter (\<lambda>x. h_key x = h_key h') (remove1 h (handles r)) \<noteq> []"
      by (auto simp: filter_empty_conv)
    then have "0 < length (filter (\<lambda>x. h_key x = h_key h') (remove1 h (handles r)))"
      by simp
    moreover have "refcount e0 = length (filter (\<lambda>x. h_key x = h_key h') (handles r))"
      using registry_invD(5) [OF inv e0(1)] e0(2) by simp
    ultimately have pos: "0 < refcount (decref ?k e0)"
      using e0(2) by (simp add: count split: if_splits)
    from e0(1) have "decref ?k e0 \<in> decref ?k ` set (cache r)"
      by (rule imageI)
    with pos have "decref ?k e0 \<in> set (cache ?r')" by simp
    moreover have "e_publicKey (decref ?k e0) = h_key h' \<and> logInstance (decref ?k e0) = h_log h'"
      using e0 by simp
    ultimately show ?thesis by blast
  qed
qed

lemma inv_release: "registry_inv r \<Longrightarrow> registry_inv (release h r)"
  by (simp add: release_def inv_release_live)

lemma inv_run: "registry_inv r \<Longrightarrow> registry_inv (run_ops ops r)"
  unfolding run_ops_def
proof (induction ops arbitrary: r)
  case Nil
  then show ?case by simp
next
  case (Cons op ops)
  from Cons.prems have "registry_inv (apply_op r op)"
    by (cases op) (simp_all add: inv_resolve inv_release)
  then show ?case using Cons.IH by simp
qed

lemma inv_live_keys:
  assumes "registry_inv r"
  shows "set (map e_publicKey (cache r)) = h_key ` set (handles r)"
proof
  show "set (map e_publicKey (cache r)) \<subseteq> h_key ` set (handles r)"
  proof
    fix k assume "k \<in> set (map e_publicKey (cache r))"
    then obtain e where e: "e \<in> set (cache r)" "e_publicKey e = k" by auto
    from registry_invD(4,5) [OF assms e(1)] e(2)
    have "filter (\<lambda>h. h_key h = k) (handles r) \<noteq> []"
      by auto
    then obtain h where "h \<in> set (handles r)" "h_key h = k"
      by (auto simp: filter_empty_conv)
    then show "k \<in> h_key ` set (handles r)" by auto
  qed
  show "h_key ` set (handles r) \<subseteq> set (map e_publicKey (cache r))"
  proof
    fix k assume "k \<in> h_key ` set (handles r)"
    then obtain h where h: "h \<in> set (handles r)" "h_key h = k" by auto
    from registry_invD(6) [OF assms h(1)] h(2)
    obtain e where "e \<in> set (cache r)" "e_publicKey e = k"
      by blast
    then show "k \<in> set (map e_publicKey (cache r))" by force
  qed
qed

text \<open>
  C8. After any sequence of resolve and release operations on an empty registry: no
  two cache entries have the same public key, no two have the same log instance, every
  open handle wraps the log instance of the one entry of its key, and \<open>cores.size\<close> is
  the number of distinct public keys that have an open handle, however many handles
  there are.
\<close>

theorem registry_uniqueness:
  "(let r = run_ops ops empty_registry in
      distinct (map e_publicKey (cache r)) \<and>
      distinct (map logInstance (cache r)) \<and>
      (\<forall>h \<in> set (handles r).
         \<exists>e \<in> set (cache r). e_publicKey e = h_key h \<and> logInstance e = h_log h) \<and>
      cores_size r = card (h_key ` set (handles r)))"
proof -
  let ?r = "run_ops ops empty_registry"
  have inv: "registry_inv ?r"
    using inv_empty by (rule inv_run)
  have "cores_size ?r = length (map e_publicKey (cache ?r))"
    by (simp add: cores_size_def)
  also have "\<dots> = card (set (map e_publicKey (cache ?r)))"
    using registry_invD(1) [OF inv] by (rule distinct_card [symmetric])
  also have "\<dots> = card (h_key ` set (handles ?r))"
    by (simp only: inv_live_keys [OF inv])
  finally have size: "cores_size ?r = card (h_key ` set (handles ?r))" .
  from registry_invD(1,2) [OF inv] registry_invD(6) [OF inv] size show ?thesis
    unfolding Let_def by blast
qed

theorem registry_uniqueness_witness:
  "cores_size (run_ops [Resolve (replicate 32 1) True, Resolve (replicate 32 1) True,
                        Resolve (replicate 32 2) True] empty_registry) = 2 \<and>
   card (h_key ` set (handles (run_ops [Resolve (replicate 32 1) True,
                        Resolve (replicate 32 1) True,
                        Resolve (replicate 32 2) True] empty_registry))) = 2 \<and>
   length (handles (run_ops [Resolve (replicate 32 1) True, Resolve (replicate 32 1) True,
                        Resolve (replicate 32 2) True] empty_registry)) = 3 \<and>
   cores_size (run_ops [Resolve (replicate 32 1) True,
                        Release \<lparr>h_id = 0, h_key = replicate 32 1, h_log = 0\<rparr>] empty_registry) = 0"
proof -
  let ?ops = "[Resolve (replicate 32 1) True, Resolve (replicate 32 1) True,
               Resolve (replicate 32 2) True]"
  have run: "cores_size (run_ops ?ops empty_registry) = 2 \<and>
             length (handles (run_ops ?ops empty_registry)) = 3"
    by (simp add: run_ops_def resolve_def empty_registry_def cores_size_def incref_def Let_def)
  have closed: "cores_size (run_ops [Resolve (replicate 32 1) True,
      Release \<lparr>h_id = 0, h_key = replicate 32 1, h_log = 0\<rparr>] empty_registry) = 0"
    by (simp add: run_ops_def resolve_def release_def empty_registry_def cores_size_def
        decref_def Let_def)
  from registry_uniqueness [of ?ops]
  have "cores_size (run_ops ?ops empty_registry) =
        card (h_key ` set (handles (run_ops ?ops empty_registry)))"
    unfolding Let_def by blast
  with run closed show ?thesis by simp
qed

end
